theory Spec2Isabelle
  imports Main "HOL-Library.Word" "HOL-Library.Monad_Syntax"
begin

unbundle bit_operations_syntax

section \<open>watchf: the watcher of \<^verbatim>\<open>src/main/watch.c\<close>\<close>

text \<open>
  The program watches one target through inotify and runs a shell command once a burst of
  modifications has settled. Everything the C code obtains from the operating system (the
  results of \<^verbatim>\<open>poll\<close>, \<^verbatim>\<open>read\<close>, \<^verbatim>\<open>system\<close>, \<^verbatim>\<open>inotify_init\<close>, ...) is an explicit input of
  the model; everything it does to the outside (text written, system calls that release or
  start something) is an entry of an action trace, in program order.
\<close>

subsection \<open>Platform constants (Linux headers)\<close>

definition IN_ACCESS :: "32 word" where "IN_ACCESS = 0x00000001"
definition IN_MODIFY :: "32 word" where "IN_MODIFY = 0x00000002"
definition IN_ATTRIB :: "32 word" where "IN_ATTRIB = 0x00000004"
definition IN_CLOSE_WRITE :: "32 word" where "IN_CLOSE_WRITE = 0x00000008"
definition IN_CLOSE_NOWRITE :: "32 word" where "IN_CLOSE_NOWRITE = 0x00000010"
definition IN_OPEN :: "32 word" where "IN_OPEN = 0x00000020"
definition IN_MOVED_FROM :: "32 word" where "IN_MOVED_FROM = 0x00000040"
definition IN_MOVED_TO :: "32 word" where "IN_MOVED_TO = 0x00000080"
definition IN_CREATE :: "32 word" where "IN_CREATE = 0x00000100"
definition IN_DELETE :: "32 word" where "IN_DELETE = 0x00000200"
definition IN_DELETE_SELF :: "32 word" where "IN_DELETE_SELF = 0x00000400"
definition IN_MOVE_SELF :: "32 word" where "IN_MOVE_SELF = 0x00000800"
definition IN_EXCL_UNLINK :: "32 word" where "IN_EXCL_UNLINK = 0x04000000"
definition IN_ISDIR :: "32 word" where "IN_ISDIR = 0x40000000"

definition POLLIN :: "16 word" where "POLLIN = 0x0001"
definition SIGINT :: "32 word" where "SIGINT = 2"
definition SIGTERM :: "32 word" where "SIGTERM = 15"
definition EXIT_SUCCESS :: int where "EXIT_SUCCESS = 0"
definition EXIT_FAILURE :: int where "EXIT_FAILURE = 1"

text \<open>\<^verbatim>\<open>sizeof(struct inotify_event)\<close>: four 32-bit fields, then the flexible \<^verbatim>\<open>name\<close>.\<close>
definition sizeof_inotify_event :: nat where "sizeof_inotify_event = 16"

text \<open>\<^verbatim>\<open>sizeof(struct signalfd_siginfo)\<close>.\<close>
definition sizeof_signalfd_siginfo :: int where "sizeof_signalfd_siginfo = 128"

text \<open>\<^verbatim>\<open>#define EVENT_BUF_LEN (sizeof(struct inotify_event) * 16)\<close>\<close>
definition EVENT_BUF_LEN :: nat where "EVENT_BUF_LEN = sizeof_inotify_event * 16"

text \<open>
  The wait-status macros of the C library: \<^verbatim>\<open>WTERMSIG(s)\<close> is \<^verbatim>\<open>s & 0x7f\<close> and
  \<^verbatim>\<open>WIFEXITED(s)\<close> is \<^verbatim>\<open>WTERMSIG(s) == 0\<close>, a C truth value.
\<close>
definition WTERMSIG :: "32 word \<Rightarrow> 32 word" where
  "WTERMSIG status = status AND 0x7f"

definition WIFEXITED :: "32 word \<Rightarrow> int" where
  "WIFEXITED status = (if WTERMSIG status = 0 then 1 else 0)"

subsection \<open>What the program does to the outside\<close>

text \<open>
  The entries of the trace: text written to standard output or standard error (the
  consecutive \<^verbatim>\<open>printf\<close> and \<^verbatim>\<open>puts\<close> calls of \<^verbatim>\<open>report_event\<close> make one entry), a call of
  \<^verbatim>\<open>perror\<close> with its message, and the calls of \<^verbatim>\<open>poll\<close> (with its timeout), \<^verbatim>\<open>system\<close>,
  \<^verbatim>\<open>close\<close> and \<^verbatim>\<open>inotify_rm_watch\<close>.
\<close>
datatype action =
    Stdout string
  | Stderr string
  | Perror string
  | Poll int
  | System string
  | Close int
  | Inotify_rm_watch int int

subsection \<open>printf conversions\<close>

definition digit_char :: "nat \<Rightarrow> char" where
  "digit_char d = (if d < 10 then char_of (48 + d) else char_of (87 + d))"

fun dec_of_nat :: "nat \<Rightarrow> string" where
  "dec_of_nat n = (if n < 10 then [digit_char n] else dec_of_nat (n div 10) @ [digit_char (n mod 10)])"

fun hex_of_nat :: "nat \<Rightarrow> string" where
  "hex_of_nat n = (if n < 16 then [digit_char n] else hex_of_nat (n div 16) @ [digit_char (n mod 16)])"

declare dec_of_nat.simps [simp del]
declare hex_of_nat.simps [simp del]

text \<open>\<^verbatim>\<open>%d\<close> of a C \<^verbatim>\<open>int\<close>.\<close>
definition dec_of_int :: "int \<Rightarrow> string" where
  "dec_of_int k = (if k < 0 then CHR ''-'' # dec_of_nat (nat (- k)) else dec_of_nat (nat k))"

text \<open>\<^verbatim>\<open>%d\<close> of a 32-bit value (an \<^verbatim>\<open>int\<close>, or a \<^verbatim>\<open>uint32_t\<close> passed where an \<^verbatim>\<open>int\<close> is read).\<close>
definition fmt_d :: "32 word \<Rightarrow> string" where
  "fmt_d w = dec_of_int (sint w)"

text \<open>\<^verbatim>\<open>%x\<close> and \<^verbatim>\<open>%08x\<close> of a 32-bit value.\<close>
definition fmt_x :: "32 word \<Rightarrow> string" where
  "fmt_x w = hex_of_nat (unat w)"

definition fmt_08x :: "32 word \<Rightarrow> string" where
  "fmt_08x w = (let s = fmt_x w in replicate (8 - length s) CHR ''0'' @ s)"

subsection \<open>The event buffer\<close>

text \<open>
  \<^verbatim>\<open>char buf[EVENT_BUF_LEN]\<close> is a list of bytes. A 32-bit field is read in the machine's
  (little-endian) byte order. A read that does not lie inside the buffer is undefined
  behaviour in C and \<open>None\<close> here.
\<close>

definition rd32 :: "string \<Rightarrow> nat \<Rightarrow> 32 word option" where
  "rd32 buf i =
     (if i + 4 \<le> length buf
      then Some (word_of_nat (of_char (buf ! i) + 256 * of_char (buf ! (i + 1))
                  + 65536 * of_char (buf ! (i + 2)) + 16777216 * of_char (buf ! (i + 3))))
      else None)"

text \<open>The fixed part of \<^verbatim>\<open>struct inotify_event\<close>; \<^verbatim>\<open>name\<close> follows it in the buffer.\<close>
record inotify_event =
  e_wd :: "32 word"
  e_mask :: "32 word"
  e_cookie :: "32 word"
  e_len :: "32 word"

text \<open>\<^verbatim>\<open>(struct inotify_event*)&buf[i]\<close>\<close>
definition event_at :: "string \<Rightarrow> nat \<Rightarrow> inotify_event option" where
  "event_at buf i = do {
     w \<leftarrow> rd32 buf i;
     m \<leftarrow> rd32 buf (i + 4);
     c \<leftarrow> rd32 buf (i + 8);
     l \<leftarrow> rd32 buf (i + 12);
     Some \<lparr>e_wd = w, e_mask = m, e_cookie = c, e_len = l\<rparr>
   }"

text \<open>
  \<^verbatim>\<open>event->name\<close> as \<^verbatim>\<open>printf("%s")\<close> reads it: the bytes from \<open>i + 16\<close> up to the first NUL.
  Without a NUL in the buffer the read runs out of it.
\<close>
definition name_at :: "string \<Rightarrow> nat \<Rightarrow> string option" where
  "name_at buf i =
     (let rest = drop (i + sizeof_inotify_event) buf
      in if CHR 0x00 \<in> set rest then Some (takeWhile (\<lambda>c. c \<noteq> CHR 0x00) rest) else None)"

subsection \<open>\<^verbatim>\<open>report_event\<close>\<close>

text \<open>The labels printed for the event kinds, in the order of the \<^verbatim>\<open>if\<close> statements.\<close>
definition report_kinds :: "inotify_event \<Rightarrow> string" where
  "report_kinds event =
     (if e_mask event AND IN_ACCESS \<noteq> 0 then ''IN_ACCESS,'' else [])
   @ (if e_mask event AND IN_ATTRIB \<noteq> 0 then ''IN_ATTRIB,'' else [])
   @ (if e_mask event AND IN_OPEN \<noteq> 0 then ''IN_OPEN,'' else [])
   @ (if e_mask event AND IN_CLOSE_WRITE \<noteq> 0 then ''IN_CLOSE_WRITE,'' else [])
   @ (if e_mask event AND IN_CLOSE_NOWRITE \<noteq> 0 then ''IN_CLOSE_NOWRITE,'' else [])
   @ (if e_mask event AND IN_CREATE \<noteq> 0 then ''IN_CREATE,'' else [])
   @ (if e_mask event AND IN_DELETE \<noteq> 0 then ''IN_DELETE,'' else [])
   @ (if e_mask event AND IN_DELETE_SELF \<noteq> 0 then ''IN_DELETE_SELF,'' else [])
   @ (if e_mask event AND IN_MODIFY \<noteq> 0 then ''IN_MODIFY,'' else [])
   @ (if e_mask event AND IN_MOVE_SELF \<noteq> 0 then ''IN_MOVE_SELF,'' else [])
   @ (if e_mask event AND IN_MOVED_FROM \<noteq> 0
      then ''IN_MOVED_FROM (cookie: '' @ fmt_d (e_cookie event) @ ''),'' else [])
   @ (if e_mask event AND IN_MOVED_TO \<noteq> 0
      then ''IN_MOVED_TO (cookie: '' @ fmt_d (e_cookie event) @ '')'' else [])"

text \<open>
  Everything \<^verbatim>\<open>report_event\<close> writes to standard output for one event: the header, the
  name when \<^verbatim>\<open>event->len\<close> is not zero, a blank, the kinds, and the newline of \<^verbatim>\<open>puts("")\<close>.
\<close>
definition event_text :: "inotify_event \<Rightarrow> string \<Rightarrow> string" where
  "event_text event name =
     ''wd='' @ fmt_d (e_wd event) @ '' mask='' @ fmt_08x (e_mask event)
     @ '' cookie='' @ fmt_08x (e_cookie event) @ '' len='' @ fmt_d (e_len event)
     @ '' dir='' @ (if e_mask event AND IN_ISDIR \<noteq> 0 then ''yes'' else ''no'')
     @ (if e_len event \<noteq> 0 then '' name='' @ name else [])
     @ '' '' @ report_kinds event @ [CHR ''\<newline>'']"

text \<open>\<^verbatim>\<open>report_event\<close> on the event at offset \<open>i\<close> of the buffer.\<close>
definition report_event :: "string \<Rightarrow> nat \<Rightarrow> string option" where
  "report_event buf i = do {
     event \<leftarrow> event_at buf i;
     name \<leftarrow> (if e_len event \<noteq> 0 then name_at buf i else Some []);
     Some (event_text event name)
   }"

subsection \<open>\<^verbatim>\<open>watch_handler\<close>\<close>

text \<open>
  The \<^verbatim>\<open>while (i < len)\<close> loop over the bytes that \<^verbatim>\<open>read\<close> left in \<open>buf\<close>; \<open>len\<close> is the
  value \<^verbatim>\<open>read\<close> returned (negative on failure). The result is the text written and the
  final value of \<^verbatim>\<open>events\<close>.
\<close>
function watch_handler_loop ::
  "bool \<Rightarrow> string \<Rightarrow> int \<Rightarrow> nat \<Rightarrow> action list \<Rightarrow> int \<Rightarrow> (action list \<times> int) option" where
  "watch_handler_loop verbose buf len i out events =
     (if int i < len then
        (case event_at buf i of
           None \<Rightarrow> None
         | Some event \<Rightarrow>
             if e_mask event AND IN_MODIFY \<noteq> 0 then
               (if verbose then
                  (case report_event buf i of
                     None \<Rightarrow> None
                   | Some line \<Rightarrow>
                       watch_handler_loop verbose buf len
                         (i + sizeof_inotify_event + unat (e_len event))
                         (out @ [Stdout line]) (events + 1))
                else
                  watch_handler_loop verbose buf len
                    (i + sizeof_inotify_event + unat (e_len event)) out (events + 1))
             else
               watch_handler_loop verbose buf len
                 (i + sizeof_inotify_event + unat (e_len event)) out events)
      else Some (out, events))"
  by pat_completeness auto
termination
  by (relation "measure (\<lambda>(verbose, buf, len, i, out, events). nat (len - int i))")
     (auto simp: sizeof_inotify_event_def intro: less_le_trans [where y = 0])

declare watch_handler_loop.simps [simp del]

text \<open>
  \<^verbatim>\<open>watch_handler(inf, verbose)\<close>, given what \<^verbatim>\<open>read(inf, buf, EVENT_BUF_LEN)\<close> returned and
  left in the buffer.
\<close>
definition watch_handler :: "int \<Rightarrow> string \<Rightarrow> bool \<Rightarrow> (action list \<times> int) option" where
  "watch_handler len buf verbose = watch_handler_loop verbose buf len 0 [] 0"

subsection \<open>The file-scope handles and their set-up and tear-down\<close>

text \<open>\<^verbatim>\<open>static int s_watch_instance = -1; static int s_inotify_instance = -1;\<close>\<close>
record statics =
  s_watch_instance :: int
  s_inotify_instance :: int

definition initial_statics :: statics where
  "initial_statics = \<lparr>s_watch_instance = - 1, s_inotify_instance = - 1\<rparr>"

text \<open>What the operating system answers while the watcher starts.\<close>
record startup =
  sigprocmask_ret :: int
  signalfd_ret :: int
  inotify_init_ret :: int
  inotify_add_watch_ret :: int
  startup_strerror :: string

definition squote :: char where "squote = CHR 0x27"

text \<open>\<^verbatim>\<open>initialise_watcher\<close>: the text written, the value returned, the statics afterwards.\<close>
definition initialise_watcher ::
  "string \<Rightarrow> bool \<Rightarrow> startup \<Rightarrow> statics \<Rightarrow> action list \<times> int \<times> statics" where
  "initialise_watcher target verbose env g =
     (let inf = inotify_init_ret env in
      if inf = - 1 then ([Perror ''Failed to initalise iNotify''], inf, g)
      else
        (let wd = inotify_add_watch_ret env in
         if wd = - 1 then ([Perror ''Failed to create a watch on target''], inf, g)
         else
           ((if verbose
             then [Stdout (''Begun monitoring of '' @ [squote] @ target @ [squote] @ '' - ''
                           @ dec_of_int wd @ [CHR ''\<newline>''])]
             else []),
            inf,
            g\<lparr>s_inotify_instance := inf, s_watch_instance := wd\<rparr>)))"

text \<open>\<^verbatim>\<open>shutdown_watcher\<close>\<close>
definition shutdown_watcher :: "statics \<Rightarrow> action list \<times> statics" where
  "shutdown_watcher g =
     (if s_inotify_instance g \<noteq> - 1 then
        (if s_watch_instance g \<noteq> - 1 then
           ([Inotify_rm_watch (s_inotify_instance g) (s_watch_instance g),
             Close (s_inotify_instance g)],
            g\<lparr>s_watch_instance := - 1, s_inotify_instance := - 1\<rparr>)
         else
           ([Close (s_inotify_instance g)], g\<lparr>s_inotify_instance := - 1\<rparr>))
      else ([], g))"

text \<open>\<^verbatim>\<open>initialize_signals\<close>: the text written and the descriptor returned.\<close>
definition initialize_signals :: "startup \<Rightarrow> action list \<times> int" where
  "initialize_signals env =
     (if sigprocmask_ret env < 0 then
        ([Stderr (''Couldn'' @ [squote] @ ''t block signals: '' @ [squote]
                  @ startup_strerror env @ [squote, CHR ''\<newline>''])], - 1)
      else if signalfd_ret env < 0 then
        ([Stderr (''Couldn'' @ [squote] @ ''t setup signal FD: '' @ [squote]
                  @ startup_strerror env @ [squote, CHR ''\<newline>''])], - 1)
      else ([], signalfd_ret env))"

subsection \<open>\<^verbatim>\<open>execute_command\<close>\<close>

text \<open>
  The helper, given the value \<open>rc\<close> that \<^verbatim>\<open>system(command)\<close> returns:
  \<^verbatim>\<open>return (WIFEXITED(system(command)) == 0) ? 0 : -1;\<close>
\<close>
definition execute_command :: "string \<Rightarrow> bool \<Rightarrow> 32 word \<Rightarrow> action list \<times> int" where
  "execute_command command verbose rc =
     ((if verbose
       then [Stdout (''Notify event - executing '' @ [squote] @ command
                     @ [squote, CHR ''\<newline>''])]
       else [])
      @ [System command],
      if WIFEXITED rc = 0 then 0 else - 1)"

subsection \<open>The loop of \<^verbatim>\<open>watch_for_changes\<close>\<close>

text \<open>
  One round of the \<^verbatim>\<open>for (;;)\<close> loop is driven by what the operating system answers in
  that round: the value of \<^verbatim>\<open>poll\<close>, the \<^verbatim>\<open>revents\<close> of the two descriptors, what a \<^verbatim>\<open>read\<close> of
  the signal descriptor yields (its return value and \<^verbatim>\<open>ssi_signo\<close>), what the \<^verbatim>\<open>read\<close> in
  \<^verbatim>\<open>watch_handler\<close> yields (its return value and the buffer), and what \<^verbatim>\<open>system\<close> returns.
  A round reads only the answers of the calls it makes.
\<close>
record poll_event =
  npoll :: int
  poll_strerror :: string
  sig_revents :: "16 word"
  sig_nread :: int
  ssi_signo :: "32 word"
  ino_revents :: "16 word"
  ino_len :: int
  ino_buf :: string
  system_rc :: "32 word"

text \<open>
  The locals that live across rounds. \<^verbatim>\<open>watch_events\<close> is a C \<^verbatim>\<open>int\<close>: 32 bits, read as
  signed (\<open>sint\<close>) where the code compares it with \<^verbatim>\<open>> 0\<close>. An increment of the largest
  value, which C leaves undefined, wraps around here as it does on the machine.
\<close>
record loop_vars =
  watch_events :: "32 word"
  ret :: int

text \<open>
  How a round ends: the loop goes on, it is left by \<^verbatim>\<open>break\<close>, or \<^verbatim>\<open>watch_handler\<close> read
  outside its buffer.
\<close>
datatype flow = Continue | Break | Undefined_behaviour

text \<open>The \<^verbatim>\<open>if (poll_handles[FD_POLL_INOTIFY].revents & POLLIN)\<close> block.\<close>
definition inotify_block ::
  "bool \<Rightarrow> loop_vars \<Rightarrow> poll_event \<Rightarrow> action list \<Rightarrow> action list \<times> flow \<times> loop_vars" where
  "inotify_block verbose s ev acts =
     (if ino_revents ev AND POLLIN \<noteq> 0 then
        (case watch_handler (ino_len ev) (ino_buf ev) verbose of
           None \<Rightarrow> (acts, Undefined_behaviour, s)
         | Some (out, n) \<Rightarrow>
             if n > 0 then (acts @ out, Continue, s\<lparr>watch_events := watch_events s + 1\<rparr>)
             else (acts @ out, Continue, s))
      else (acts, Continue, s))"

text \<open>The body of the \<^verbatim>\<open>for (;;)\<close> loop.\<close>
definition loop_body ::
  "string \<Rightarrow> bool \<Rightarrow> loop_vars \<Rightarrow> poll_event \<Rightarrow> action list \<times> flow \<times> loop_vars" where
  "loop_body command verbose s ev =
     (let timeout = (if watch_events s \<noteq> 0 then 100 else 1000);
          polled = [Poll timeout]
      in
      if npoll ev = 0 then
        (if 0 < sint (watch_events s) then
           (let s' = s\<lparr>watch_events := 0\<rparr>;
                rc = system_rc ev;
                acts = polled
                  @ (if verbose
                     then [Stdout (''Notify event - executing '' @ [squote] @ command
                                   @ [squote, CHR ''\<newline>''])]
                     else [])
                  @ [System command]
                  @ (if verbose
                     then [Stdout (''return code '' @ fmt_x rc @ [CHR ''\<newline>''])]
                     else [])
            in
            if rc \<noteq> 0 then
              (if WIFEXITED rc \<noteq> 0 then (acts, Break, s') else (acts, Continue, s'))
            else (acts, Continue, s'))
         else (polled, Continue, s))
      else if npoll ev < 0 then
        (polled @ [Stderr (''Couldn'' @ [squote] @ ''t poll: '' @ [squote]
                           @ poll_strerror ev @ [squote, CHR ''\<newline>''])],
         Break, s\<lparr>ret := EXIT_FAILURE\<rparr>)
      else if npoll ev > 0 then
        (if sig_revents ev AND POLLIN \<noteq> 0 then
           (if sig_nread ev \<noteq> sizeof_signalfd_siginfo then
              (polled @ [Stderr (''Couldn'' @ [squote]
                                 @ ''t read signal, wrong size read'' @ [CHR ''\<newline>''])],
               Break, s\<lparr>ret := EXIT_FAILURE\<rparr>)
            else if ssi_signo ev = SIGINT \<or> ssi_signo ev = SIGTERM then
              (polled
               @ (if verbose then [Stdout (''Received shutdown signal!'' @ [CHR ''\<newline>''])]
                  else []),
               Break, s)
            else
              inotify_block verbose s ev
                (polled
                 @ (if verbose
                    then [Stderr (''Received unexpected signal'' @ [CHR ''\<newline>''])]
                    else [])))
         else inotify_block verbose s ev polled)
      else (polled, Continue, s))"

text \<open>
  The loop over the rounds the environment supplies. When they are used up and no round
  has left the loop, the program is blocked in \<^verbatim>\<open>poll\<close>: the flow is still \<open>Continue\<close>.
\<close>
fun event_loop ::
  "string \<Rightarrow> bool \<Rightarrow> loop_vars \<Rightarrow> poll_event list \<Rightarrow> action list \<times> flow \<times> loop_vars" where
  "event_loop command verbose s [] = ([], Continue, s)"
| "event_loop command verbose s (ev # evs) =
     (case loop_body command verbose s ev of
        (acts, Continue, s') \<Rightarrow>
          (case event_loop command verbose s' evs of
             (acts', fl, s'') \<Rightarrow> (acts @ acts', fl, s''))
      | (acts, fl, s') \<Rightarrow> (acts, fl, s'))"

subsection \<open>\<^verbatim>\<open>watch_for_changes\<close>\<close>

text \<open>
  What a run comes to: the function returned a status, it is still waiting in \<^verbatim>\<open>poll\<close>
  after the rounds supplied, or it left defined behaviour.
\<close>
datatype outcome = Returned int | Waiting | Undefined

definition watch_for_changes ::
  "string \<Rightarrow> string \<Rightarrow> bool \<Rightarrow> bool \<Rightarrow> startup \<Rightarrow> poll_event list \<Rightarrow> statics
     \<Rightarrow> action list \<times> outcome \<times> statics" where
  "watch_for_changes watch_target command continuous verbose env evs g =
     (case initialize_signals env of
        (a_sig, signal_fd) \<Rightarrow>
          if signal_fd = - 1 then
            (a_sig @ [Stderr (''Unable to initialise signal handler'' @ [CHR ''\<newline>''])],
             Returned EXIT_FAILURE, g)
          else
            (case initialise_watcher watch_target verbose env g of
               (a_ino, inotify_fd, g1) \<Rightarrow>
                 if inotify_fd = - 1 then
                   (a_sig @ a_ino
                    @ [Close signal_fd,
                       Stderr (''Unable to initialise watch handler'' @ [CHR ''\<newline>''])],
                    Returned EXIT_FAILURE, g1)
                 else
                   (case event_loop command verbose
                           \<lparr>watch_events = 0, ret = EXIT_SUCCESS\<rparr> evs of
                      (a_loop, Continue, s) \<Rightarrow> (a_sig @ a_ino @ a_loop, Waiting, g1)
                    | (a_loop, Undefined_behaviour, s) \<Rightarrow>
                        (a_sig @ a_ino @ a_loop, Undefined, g1)
                    | (a_loop, Break, s) \<Rightarrow>
                        (case shutdown_watcher g1 of
                           (a_down, g2) \<Rightarrow>
                             (a_sig @ a_ino @ a_loop
                              @ (if verbose
                                 then [Stdout (''Closing down.'' @ [CHR ''\<newline>''])]
                                 else [])
                              @ a_down @ [Close signal_fd],
                              Returned (ret s), g2)))))"

subsection \<open>The environment's side: wait statuses and event batches\<close>

text \<open>
  How a child started by \<^verbatim>\<open>system\<close> can end, and the wait status Linux reports for it: an
  exit with an 8-bit code \<open>c\<close> gives \<open>c << 8\<close>; death by signal \<open>sig\<close> gives \<open>sig\<close>, with
  bit \<open>0x80\<close> set when a core was dumped. Signal numbers are 1 to 64.
\<close>
datatype child_end = Exited "8 word" | Killed "32 word" bool

definition wait_status :: "child_end \<Rightarrow> 32 word" where
  "wait_status t =
     (case t of
        Exited c \<Rightarrow> push_bit 8 (ucast c)
      | Killed sg core \<Rightarrow> sg OR (if core then 0x80 else 0))"

definition valid_child_end :: "child_end \<Rightarrow> bool" where
  "valid_child_end t = (case t of Exited c \<Rightarrow> True | Killed sg core \<Rightarrow> 1 \<le> sg \<and> sg \<le> 64)"

text \<open>
  How the kernel lays out a batch of events in the buffer: per event the four 32-bit fields
  in little-endian order, then \<^verbatim>\<open>len\<close> bytes of name (NUL-terminated and NUL-padded when
  \<^verbatim>\<open>len\<close> is not zero).
\<close>
definition enc32 :: "32 word \<Rightarrow> string" where
  "enc32 w = [char_of (unat w), char_of (unat w div 256),
              char_of (unat w div 65536), char_of (unat w div 16777216)]"

definition encode_event :: "inotify_event \<times> string \<Rightarrow> string" where
  "encode_event r =
     (case r of (e, name) \<Rightarrow>
        enc32 (e_wd e) @ enc32 (e_mask e) @ enc32 (e_cookie e) @ enc32 (e_len e) @ name)"

definition encode_batch :: "(inotify_event \<times> string) list \<Rightarrow> string" where
  "encode_batch rs = concat (map encode_event rs)"

definition wf_record :: "inotify_event \<times> string \<Rightarrow> bool" where
  "wf_record r =
     (case r of (e, name) \<Rightarrow>
        length name = unat (e_len e) \<and> (if e_len e \<noteq> 0 then CHR 0x00 \<in> set name else True))"

text \<open>The records of a batch that carry the modify kind.\<close>
definition has_modify :: "inotify_event \<times> string \<Rightarrow> bool" where
  "has_modify r = (e_mask (fst r) AND IN_MODIFY \<noteq> 0)"

text \<open>The line \<^verbatim>\<open>report_event\<close> prints for a record of a batch.\<close>
definition record_line :: "inotify_event \<times> string \<Rightarrow> action" where
  "record_line r =
     (case r of (e, name) \<Rightarrow> Stdout (event_text e (takeWhile (\<lambda>c. c \<noteq> CHR 0x00) name)))"

subsection \<open>Rounds and start-ups used as concrete inputs\<close>

text \<open>The round in which \<^verbatim>\<open>poll\<close> times out and \<^verbatim>\<open>system\<close>, if called, returns \<open>rc\<close>.\<close>
definition timeout_round :: "32 word \<Rightarrow> poll_event" where
  "timeout_round rc =
     \<lparr>npoll = 0, poll_strerror = [], sig_revents = 0, sig_nread = 0, ssi_signo = 0,
      ino_revents = 0, ino_len = 0, ino_buf = [], system_rc = rc\<rparr>"

text \<open>The round in which the signal descriptor alone is readable and delivers \<open>signo\<close>.\<close>
definition signal_round :: "32 word \<Rightarrow> poll_event" where
  "signal_round signo =
     \<lparr>npoll = 1, poll_strerror = [], sig_revents = POLLIN, sig_nread = 128, ssi_signo = signo,
      ino_revents = 0, ino_len = 0, ino_buf = [], system_rc = 0\<rparr>"

text \<open>
  The round in which the inotify descriptor alone is readable and \<^verbatim>\<open>read\<close> returns \<open>len\<close>,
  leaving \<open>buf\<close> in the buffer.
\<close>
definition inotify_round :: "int \<Rightarrow> string \<Rightarrow> poll_event" where
  "inotify_round len buf =
     \<lparr>npoll = 1, poll_strerror = [], sig_revents = 0, sig_nread = 0, ssi_signo = 0,
      ino_revents = POLLIN, ino_len = len, ino_buf = buf, system_rc = 0\<rparr>"

text \<open>
  A start-up in which the signal descriptor is 3, \<^verbatim>\<open>inotify_init\<close> gives descriptor 4 and
  \<^verbatim>\<open>inotify_add_watch\<close> returns \<open>wd\<close> (\<open>- 1\<close>: the target cannot be watched).
\<close>
definition startup_with_watch :: "int \<Rightarrow> startup" where
  "startup_with_watch wd =
     \<lparr>sigprocmask_ret = 0, signalfd_ret = 3, inotify_init_ret = 4,
      inotify_add_watch_ret = wd, startup_strerror = ''No such file or directory''\<rparr>"

text \<open>An event without a name: watch descriptor 1 and the given kinds and cookie.\<close>
definition plain_event :: "32 word \<Rightarrow> 32 word \<Rightarrow> inotify_event \<times> string" where
  "plain_event kinds cookie = (\<lparr>e_wd = 1, e_mask = kinds, e_cookie = cookie, e_len = 0\<rparr>, [])"

text \<open>An event with a name: the name is padded with NULs to 16 bytes.\<close>
definition named_event :: "32 word \<Rightarrow> string \<Rightarrow> inotify_event \<times> string" where
  "named_event kinds name =
     (\<lparr>e_wd = 1, e_mask = kinds, e_cookie = 0, e_len = 16\<rparr>,
      name @ replicate (16 - length name) (CHR 0x00))"

subsection \<open>Kinds of trace entries\<close>

text \<open>Text written to standard output; text written to either stream.\<close>
definition is_Stdout :: "action \<Rightarrow> bool" where
  "is_Stdout a = (case a of Stdout s \<Rightarrow> True | _ \<Rightarrow> False)"

definition is_text :: "action \<Rightarrow> bool" where
  "is_text a = (case a of Stdout s \<Rightarrow> True | Stderr s \<Rightarrow> True | _ \<Rightarrow> False)"

subsection \<open>The rounds since the last trigger\<close>

text \<open>
  The rounds a run of the loop goes through from the variables \<open>s\<close>, each with the trace
  of its \<^verbatim>\<open>loop_body\<close>; the list ends with the round that leaves the loop, if one does.
\<close>
fun round_traces ::
  "string \<Rightarrow> bool \<Rightarrow> loop_vars \<Rightarrow> poll_event list \<Rightarrow> (poll_event \<times> action list) list" where
  "round_traces command verbose s [] = []"
| "round_traces command verbose s (ev # evs) =
     (case loop_body command verbose s ev of
        (acts, Continue, s') \<Rightarrow> (ev, acts) # round_traces command verbose s' evs
      | (acts, fl, s') \<Rightarrow> [(ev, acts)])"

text \<open>A round is a trigger when its trace holds a call of \<^verbatim>\<open>system\<close>.\<close>
definition is_System :: "action \<Rightarrow> bool" where
  "is_System a = (case a of System c \<Rightarrow> True | _ \<Rightarrow> False)"

definition triggered :: "poll_event \<times> action list \<Rightarrow> bool" where
  "triggered r = list_ex is_System (snd r)"

text \<open>The rounds after the last trigger, all rounds when there was none.\<close>
definition since_last_trigger :: "(poll_event \<times> action list) list \<Rightarrow> poll_event list" where
  "since_last_trigger h = map fst (rev (takeWhile (\<lambda>r. \<not> triggered r) (rev h)))"

text \<open>
  A round whose drain returns a count greater than zero: \<^verbatim>\<open>poll\<close> reported descriptors, the
  inotify descriptor is readable and \<^verbatim>\<open>watch_handler\<close> counts at least one modify event.
\<close>
definition positive_drain :: "bool \<Rightarrow> poll_event \<Rightarrow> bool" where
  "positive_drain verbose ev =
     (0 < npoll ev \<and> ino_revents ev AND POLLIN \<noteq> 0
      \<and> (case watch_handler (ino_len ev) (ino_buf ev) verbose of
            None \<Rightarrow> False
          | Some (out, n) \<Rightarrow> 0 < n))"

text \<open>The number of such drains since the last trigger.\<close>
definition drains_since_trigger :: "string \<Rightarrow> bool \<Rightarrow> loop_vars \<Rightarrow> poll_event list \<Rightarrow> nat" where
  "drains_since_trigger command verbose s evs =
     length (filter (positive_drain verbose)
               (since_last_trigger (round_traces command verbose s evs)))"

section \<open>Auxiliary facts\<close>

subsection \<open>Decoding what the kernel encoded\<close>

lemma le_bytes_sum:
  fixes n :: nat
  assumes "n < 4294967296"
  shows "n mod 256 + 256 * (n div 256 mod 256) + 65536 * (n div 65536 mod 256)
         + 16777216 * (n div 16777216 mod 256) = n"
proof -
  define a where "a = n div 256"
  define b where "b = a div 256"
  define c where "c = b div 256"
  have n: "n = n mod 256 + 256 * a" by (simp add: a_def)
  have a: "a = a mod 256 + 256 * b" by (simp add: b_def)
  have b: "b = b mod 256 + 256 * c" by (simp add: c_def)
  have d2: "n div 65536 = b"
    using div_mult2_eq [of n 256 256] by (simp add: a_def b_def)
  have d3: "n div 16777216 = c"
    using div_mult2_eq [of n 65536 256] d2 by (simp add: c_def)
  have "c < 256" using assms d3 by (simp add: less_mult_imp_div_less)
  then have c: "c mod 256 = c" by simp
  have "n mod 256 + 256 * (a mod 256) + 65536 * (b mod 256) + 16777216 * c = n"
    using n a b by linarith
  then show ?thesis
    by (simp only: d2 d3 c a_def [symmetric])
qed

lemma length_enc32: "length (enc32 w) = 4"
  by (simp add: enc32_def)

lemma rd32_enc32: "rd32 (pre @ enc32 w @ post) (length pre) = Some w"
proof -
  have lt: "unat w < 4294967296"
    using unsigned_less [of w, where ?'a = nat] by simp
  have "rd32 (pre @ enc32 w @ post) (length pre)
        = Some (word_of_nat (unat w mod 256 + 256 * (unat w div 256 mod 256)
                  + 65536 * (unat w div 65536 mod 256) + 16777216 * (unat w div 16777216 mod 256)))"
    by (simp add: rd32_def enc32_def nth_append)
  also have "\<dots> = Some w"
    by (simp only: le_bytes_sum [OF lt]) simp
  finally show ?thesis .
qed


lemma length_encode_event:
  "length (encode_event (e, name)) = sizeof_inotify_event + length name"
  by (simp add: encode_event_def length_enc32 sizeof_inotify_event_def)

lemma event_at_encode:
  "event_at (pre @ encode_event (e, name) @ post) (length pre) = Some e"
proof -
  let ?buf = "pre @ encode_event (e, name) @ post"
  have 0: "rd32 ?buf (length pre) = Some (e_wd e)"
    using rd32_enc32 [of pre "e_wd e" "enc32 (e_mask e) @ enc32 (e_cookie e) @ enc32 (e_len e) @ name @ post"]
    by (simp add: encode_event_def)
  have 4: "rd32 ?buf (length pre + 4) = Some (e_mask e)"
    using rd32_enc32 [of "pre @ enc32 (e_wd e)" "e_mask e" "enc32 (e_cookie e) @ enc32 (e_len e) @ name @ post"]
    by (simp add: encode_event_def length_enc32)
  have 8: "rd32 ?buf (length pre + 8) = Some (e_cookie e)"
    using rd32_enc32 [of "pre @ enc32 (e_wd e) @ enc32 (e_mask e)" "e_cookie e" "enc32 (e_len e) @ name @ post"]
    by (simp add: encode_event_def length_enc32)
  have 12: "rd32 ?buf (length pre + 12) = Some (e_len e)"
    using rd32_enc32 [of "pre @ enc32 (e_wd e) @ enc32 (e_mask e) @ enc32 (e_cookie e)" "e_len e" "name @ post"]
    by (simp add: encode_event_def length_enc32)
  show ?thesis
    by (simp add: event_at_def 0 4 8 12)
qed

lemma name_at_encode:
  assumes "CHR 0x00 \<in> set name"
  shows "name_at (pre @ encode_event (e, name) @ post) (length pre)
         = Some (takeWhile (\<lambda>c. c \<noteq> CHR 0x00) name)"
proof -
  have "drop (length pre + sizeof_inotify_event) (pre @ encode_event (e, name) @ post) = name @ post"
    by (simp add: encode_event_def length_enc32 sizeof_inotify_event_def)
  moreover have "takeWhile (\<lambda>c. c \<noteq> CHR 0x00) (name @ post) = takeWhile (\<lambda>c. c \<noteq> CHR 0x00) name"
    using assms by (simp add: takeWhile_append1)
  ultimately show ?thesis
    using assms by (simp add: name_at_def)
qed

lemma report_event_encode:
  assumes "wf_record (e, name)"
  shows "report_event (pre @ encode_event (e, name) @ post) (length pre)
         = Some (event_text e (takeWhile (\<lambda>c. c \<noteq> CHR 0x00) name))"
proof (cases "e_len e = 0")
  case True
  then show ?thesis
    by (simp add: report_event_def event_at_encode event_text_def)
next
  case False
  with assms have "CHR 0x00 \<in> set name"
    by (simp add: wf_record_def)
  then show ?thesis
    using False by (simp add: report_event_def event_at_encode name_at_encode)
qed


lemma encode_batch_Cons: "encode_batch (r # rs) = encode_event r @ encode_batch rs"
  by (simp add: encode_batch_def)

lemma watch_handler_loop_done:
  "\<not> int i < len \<Longrightarrow> watch_handler_loop verbose buf len i out events = Some (out, events)"
  by (simp add: watch_handler_loop.simps)

lemma watch_handler_loop_batch:
  assumes "list_all wf_record rs"
  shows "watch_handler_loop verbose (pre @ encode_batch rs @ post)
           (int (length pre + length (encode_batch rs))) (length pre) out events
         = Some (out @ (if verbose then map record_line (filter has_modify rs) else []),
                 events + int (length (filter has_modify rs)))"
  using assms
proof (induction rs arbitrary: pre out events)
  case Nil
  show ?case
    by (simp add: encode_batch_def watch_handler_loop_done)
next
  case (Cons r rs)
  obtain e name where r: "r = (e, name)"
    by (cases r)
  from Cons.prems have wf: "wf_record (e, name)" and rest: "list_all wf_record rs"
    by (simp_all add: r)
  let ?buf = "pre @ encode_batch ((e, name) # rs) @ post"
  let ?len = "int (length pre + length (encode_batch ((e, name) # rs)))"
  let ?pre' = "pre @ encode_event (e, name)"
  let ?line = "Stdout (event_text e (takeWhile (\<lambda>c. c \<noteq> CHR 0x00) name))"
  let ?tail = "if verbose then map record_line (filter has_modify rs) else []"
  let ?k = "int (length (filter has_modify rs))"
  have buf: "?buf = pre @ encode_event (e, name) @ (encode_batch rs @ post)"
    by (simp add: encode_batch_Cons)
  have buf': "?buf = ?pre' @ encode_batch rs @ post"
    by (simp add: encode_batch_Cons)
  have len': "?len = int (length ?pre' + length (encode_batch rs))"
    by (simp add: encode_batch_Cons)
  have nxt: "length pre + sizeof_inotify_event + unat (e_len e) = length ?pre'"
    using wf by (simp add: wf_record_def length_encode_event)
  have lt: "int (length pre) < ?len"
    by (simp add: encode_batch_Cons length_encode_event sizeof_inotify_event_def)
  have ev: "event_at ?buf (length pre) = Some e"
    unfolding buf by (rule event_at_encode)
  have rep: "report_event ?buf (length pre)
             = Some (event_text e (takeWhile (\<lambda>c. c \<noteq> CHR 0x00) name))"
    unfolding buf using wf by (rule report_event_encode)
  have IH: "watch_handler_loop verbose ?buf ?len (length ?pre') out' events'
            = Some (out' @ ?tail, events' + ?k)" for out' events'
    using Cons.IH [OF rest, of ?pre' out' events'] unfolding buf' len' .
  have step: "watch_handler_loop verbose ?buf ?len (length pre) out events
     = (if e_mask e AND IN_MODIFY \<noteq> 0
        then (if verbose
              then watch_handler_loop verbose ?buf ?len (length ?pre') (out @ [?line]) (events + 1)
              else watch_handler_loop verbose ?buf ?len (length ?pre') out (events + 1))
        else watch_handler_loop verbose ?buf ?len (length ?pre') out events)"
    by (subst watch_handler_loop.simps) (simp only: lt ev rep nxt if_True option.case)
  have "watch_handler_loop verbose ?buf ?len (length pre) out events
        = Some (out @ (if verbose then map record_line (filter has_modify ((e, name) # rs)) else []),
                events + int (length (filter has_modify ((e, name) # rs))))"
    unfolding step IH
    by (simp add: has_modify_def record_line_def)
  then show ?case
    unfolding r .
qed

lemma watch_handler_batch:
  assumes "list_all wf_record rs"
  shows "watch_handler (int (length (encode_batch rs))) (encode_batch rs @ post) verbose
         = Some (if verbose then map record_line (filter has_modify rs) else [],
                 int (length (filter has_modify rs)))"
  using watch_handler_loop_batch [OF assms, of verbose "[]" post "[]" 0]
  by (simp add: watch_handler_def)

subsection \<open>Wait statuses\<close>

lemma WTERMSIG_take_bit: "WTERMSIG status = take_bit 7 status"
proof -
  have "(0x7f :: 32 word) = mask 7"
    by (simp add: mask_eq_exp_minus_1)
  then show ?thesis
    by (simp add: WTERMSIG_def take_bit_eq_mask)
qed

lemma WIFEXITED_Exited: "WIFEXITED (wait_status (Exited c)) = 1"
  by (simp add: WIFEXITED_def WTERMSIG_take_bit wait_status_def take_bit_push_bit)

lemma wait_status_Exited_eq_0: "(wait_status (Exited c) = 0) = (c = 0)"
proof
  assume z: "wait_status (Exited c) = 0"
  have "\<not> bit c m" for m
  proof (cases "m < 8")
    case True
    from z have "\<not> bit (push_bit 8 (ucast c) :: 32 word) (m + 8)"
      by (simp add: wait_status_def)
    with True show ?thesis
      by (simp add: bit_simps)
  next
    case False
    then show ?thesis
      by (auto dest: bit_imp_le_length)
  qed
  then show "c = 0"
    by (simp add: bit_eq_iff)
next
  assume "c = 0"
  then show "wait_status (Exited c) = 0"
    by (simp add: wait_status_def)
qed

lemma WIFEXITED_Killed:
  assumes "1 \<le> sg" "sg \<le> 64"
  shows "WIFEXITED (wait_status (Killed sg core)) = 0"
proof -
  from assms have "sg < 2 ^ 7"
    by (simp add: word_le_nat_alt word_less_nat_alt)
  then have "take_bit 7 sg = sg"
    by (simp add: less_mask_eq take_bit_eq_mask)
  moreover from assms have "sg \<noteq> 0"
    by auto
  ultimately show ?thesis
    by (simp add: WIFEXITED_def WTERMSIG_take_bit wait_status_def take_bit_or)
qed

subsection \<open>What \<^verbatim>\<open>watch_handler\<close> can return\<close>

lemma watch_handler_loop_result:
  "watch_handler_loop verbose buf len i out events = Some (out', events') \<Longrightarrow>
   events \<le> events'
   \<and> 16 * (events' - events) \<le> (if int i < len then len - int i + 15 else 0)
   \<and> (list_all is_Stdout out \<longrightarrow> list_all is_Stdout out')"
proof (induction verbose buf len i out events rule: watch_handler_loop.induct)
  case (1 verbose buf len i out events)
  show ?case
  proof (cases "int i < len")
    case False
    with "1.prems" show ?thesis
      by (simp add: watch_handler_loop.simps)
  next
    case True
    with "1.prems" obtain event where ev: "event_at buf i = Some event"
      by (subst (asm) watch_handler_loop.simps) (auto split: option.splits)
    define i' where "i' = i + sizeof_inotify_event + unat (e_len event)"
    have ge: "int i + 16 \<le> int i'"
      by (simp add: i'_def sizeof_inotify_event_def)
    show ?thesis
    proof (cases "e_mask event AND IN_MODIFY \<noteq> 0")
      case m: True
      show ?thesis
      proof (cases verbose)
        case v: True
        with "1.prems" True ev m obtain line where ln: "report_event buf i = Some line"
          by (subst (asm) watch_handler_loop.simps) (auto split: option.splits)
        from "1.prems" True ev m v ln
        have rec: "watch_handler_loop verbose buf len i' (out @ [Stdout line]) (events + 1)
                   = Some (out', events')"
          by (subst (asm) watch_handler_loop.simps) (simp add: i'_def)
        note ih = "1.IH"(1) [OF True ev m v ln rec [unfolded i'_def], folded i'_def]
        from ih ge True show ?thesis
          by (auto simp: is_Stdout_def split: if_splits)
      next
        case v: False
        from "1.prems" True ev m v
        have rec: "watch_handler_loop verbose buf len i' out (events + 1) = Some (out', events')"
          by (subst (asm) watch_handler_loop.simps) (simp add: i'_def)
        note ih = "1.IH"(2) [OF True ev m v rec [unfolded i'_def], folded i'_def]
        from ih ge True show ?thesis
          by (auto split: if_splits)
      qed
    next
      case m: False
      from "1.prems" True ev m
      have rec: "watch_handler_loop verbose buf len i' out events = Some (out', events')"
        by (subst (asm) watch_handler_loop.simps) (simp add: i'_def)
      note ih = "1.IH"(3) [OF True ev m rec [unfolded i'_def], folded i'_def]
      from ih ge True show ?thesis
        by (auto split: if_splits)
    qed
  qed
qed

lemma watch_handler_result:
  assumes "watch_handler len buf verbose = Some (out, n)"
  shows "0 \<le> n" and "list_all is_Stdout out"
    and "len \<le> int EVENT_BUF_LEN \<Longrightarrow> n \<le> 16"
  using watch_handler_loop_result [of verbose buf len 0 "[]" 0 out n] assms
  by (simp_all add: watch_handler_def EVENT_BUF_LEN_def sizeof_inotify_event_def
        split: if_splits)

lemma watch_handler_nothing_read:
  "len \<le> 0 \<Longrightarrow> watch_handler len buf verbose = Some ([], 0)"
  by (simp add: watch_handler_def watch_handler_loop_done)

subsection \<open>Sample batches\<close>

lemma IN_MODIFY_neq_0: "IN_MODIFY \<noteq> 0"
  by (simp add: IN_MODIFY_def)

lemma wf_plain_event: "wf_record (plain_event kinds cookie)"
  by (simp add: wf_record_def plain_event_def)

lemma has_modify_plain: "has_modify (plain_event kinds cookie) = (kinds AND IN_MODIFY \<noteq> 0)"
  by (simp add: has_modify_def plain_event_def)

lemma wf_named_event: "length name < 16 \<Longrightarrow> wf_record (named_event kinds name)"
  by (simp add: wf_record_def named_event_def)

lemma has_modify_named: "has_modify (named_event kinds name) = (kinds AND IN_MODIFY \<noteq> 0)"
  by (simp add: has_modify_def named_event_def)

lemma length_encode_named:
  "length name < 16 \<Longrightarrow> length (encode_event (named_event kinds name)) = 32"
  by (simp add: named_event_def length_encode_event sizeof_inotify_event_def)

lemma length_encode_plain: "length (encode_event (plain_event kinds cookie)) = 16"
  by (simp add: plain_event_def length_encode_event sizeof_inotify_event_def)


lemma two_names_batch:
  "watch_handler 64
     (encode_batch [named_event IN_MODIFY ''a.txt'', named_event IN_MODIFY ''b.txt'']) False
   = Some ([], 2)"
proof -
  let ?rs = "[named_event IN_MODIFY ''a.txt'', named_event IN_MODIFY ''b.txt'']"
  have wf: "list_all wf_record ?rs"
    by (simp add: wf_named_event)
  have len: "int (length (encode_batch ?rs)) = 64"
    by (simp add: encode_batch_def length_encode_named)
  show ?thesis
    using watch_handler_batch [OF wf, of "[]" False]
    by (simp add: len has_modify_named IN_MODIFY_neq_0)
qed

subsection \<open>One round of the loop\<close>

lemma event_loop_Break:
  "fst (snd (loop_body command verbose s ev)) \<noteq> Continue \<Longrightarrow>
   event_loop command verbose s (ev # evs) = loop_body command verbose s ev"
  by (cases "loop_body command verbose s ev" rule: prod_cases3)
     (auto split: flow.splits)

lemma timeout_round_body:
  assumes "npoll ev = 0" and "0 < sint (watch_events s)"
  shows "fst (snd (loop_body command verbose s ev))
         = (if system_rc ev \<noteq> 0 \<and> WIFEXITED (system_rc ev) \<noteq> 0 then Break else Continue)"
    and "System command \<in> set (fst (loop_body command verbose s ev))"
  using assms by (auto simp: loop_body_def Let_def)

lemma is_Stdout_is_text: "list_all is_Stdout out \<Longrightarrow> list_all is_text out"
  by (induction out) (auto simp: is_Stdout_def is_text_def split: action.splits)

lemma inotify_block_trace:
  "\<exists>out. fst (inotify_block verbose s ev acts) = acts @ out \<and> list_all is_text out"
proof (cases "ino_revents ev AND POLLIN \<noteq> 0")
  case False
  then show ?thesis
    by (simp add: inotify_block_def)
next
  case True
  show ?thesis
  proof (cases "watch_handler (ino_len ev) (ino_buf ev) verbose")
    case None
    with True show ?thesis
      by (simp add: inotify_block_def)
  next
    case (Some r)
    obtain out n where r: "r = (out, n)"
      by (cases r)
    from Some r have "list_all is_text out"
      using watch_handler_result(2) is_Stdout_is_text by blast
    with True Some r show ?thesis
      by (simp add: inotify_block_def)
  qed
qed

lemma loop_body_trace_quiet:
  assumes "\<not> (npoll ev = 0 \<and> 0 < sint (watch_events s))"
  shows "\<exists>rest. fst (loop_body command verbose s ev)
                  = Poll (if watch_events s = 0 then 1000 else 100) # rest
               \<and> list_all is_text rest"
proof -
  let ?t = "if watch_events s = 0 then 1000 else (100 :: int)"
  obtain o1 where o1: "fst (inotify_block verbose s ev [Poll ?t]) = [Poll ?t] @ o1"
      "list_all is_text o1"
    using inotify_block_trace by blast
  obtain o2 where o2: "fst (inotify_block verbose s ev
        ([Poll ?t] @ (if verbose then [Stderr (''Received unexpected signal'' @ [CHR ''\<newline>''])] else [])))
        = ([Poll ?t] @ (if verbose then [Stderr (''Received unexpected signal'' @ [CHR ''\<newline>''])] else [])) @ o2"
      "list_all is_text o2"
    using inotify_block_trace by blast
  show ?thesis
    using assms o1 o2
    by (auto simp: loop_body_def Let_def is_text_def)
qed

lemma loop_body_trace_trigger:
  assumes "npoll ev = 0" and "0 < sint (watch_events s)"
  shows "fst (loop_body command verbose s ev)
         = Poll 100
           # (if verbose
              then [Stdout (''Notify event - executing '' @ [squote] @ command
                            @ [squote, CHR ''\<newline>''])]
              else [])
           @ [System command]
           @ (if verbose
              then [Stdout (''return code '' @ fmt_x (system_rc ev) @ [CHR ''\<newline>''])]
              else [])"
  using assms by (auto simp: loop_body_def Let_def)

lemma is_text_not_call: "list_all is_text rest \<Longrightarrow> Poll t \<notin> set rest \<and> System c \<notin> set rest"
  by (induction rest) (auto simp: is_text_def)

lemma event_loop_Continue:
  "loop_body command verbose s ev = (acts, Continue, s') \<Longrightarrow>
   event_loop command verbose s (ev # evs)
   = (case event_loop command verbose s' evs of (acts', fl, s'') \<Rightarrow> (acts @ acts', fl, s''))"
  by simp

lemma timeout_round_state:
  assumes "npoll ev = 0" and "0 < sint (watch_events s)"
  shows "snd (snd (loop_body command verbose s ev)) = s\<lparr>watch_events := 0\<rparr>"
  using assms by (auto simp: loop_body_def Let_def)

lemma text_not_System: "list_all is_text acts \<Longrightarrow> \<not> list_ex is_System acts"
  by (induction acts) (auto simp: is_text_def is_System_def split: action.splits)

lemma loop_body_round:
  assumes "loop_body command verbose s ev = (acts, Continue, s')"
  shows "watch_events s'
         = (if triggered (ev, acts) then 0
            else watch_events s + (if positive_drain verbose ev then 1 else 0))"
proof (cases "npoll ev = 0 \<and> 0 < sint (watch_events s)")
  case True
  then have "System command \<in> set acts" and "watch_events s' = 0"
    using assms by (auto simp: loop_body_def Let_def split: if_splits)
  then show ?thesis
    by (auto simp: triggered_def list_ex_iff is_System_def)
next
  case False
  then obtain rest where "fst (loop_body command verbose s ev)
        = Poll (if watch_events s = 0 then 1000 else 100) # rest" "list_all is_text rest"
    using loop_body_trace_quiet by blast
  with assms have nt: "\<not> triggered (ev, acts)"
    using text_not_System [of rest] by (auto simp: triggered_def is_System_def)
  have "watch_events s' = watch_events s + (if positive_drain verbose ev then 1 else 0)"
    using assms False
    by (auto simp: loop_body_def inotify_block_def positive_drain_def Let_def
             split: if_splits option.splits)
  with nt show ?thesis
    by simp
qed

subsection \<open>The counter over a run of the loop\<close>

lemma since_last_trigger_Cons:
  "since_last_trigger (r # h)
   = (if list_ex triggered h then since_last_trigger h
      else (if triggered r then [] else [fst r]) @ map fst h)"
proof (cases "list_ex triggered h")
  case True
  then obtain x where "x \<in> set (rev h)" "\<not> \<not> triggered x"
    by (auto simp: list_ex_iff)
  then have "takeWhile (\<lambda>r. \<not> triggered r) (rev h @ [r]) = takeWhile (\<lambda>r. \<not> triggered r) (rev h)"
    by (rule takeWhile_append1)
  with True show ?thesis
    by (simp add: since_last_trigger_def)
next
  case False
  then have "\<And>x. x \<in> set (rev h) \<Longrightarrow> \<not> triggered x"
    by (auto simp: list_ex_iff)
  then have "takeWhile (\<lambda>r. \<not> triggered r) (rev h @ [r])
             = rev h @ takeWhile (\<lambda>r. \<not> triggered r) [r]"
    by (rule takeWhile_append2)
  with False show ?thesis
    by (simp add: since_last_trigger_def)
qed

lemma since_last_trigger_none:
  "\<not> list_ex triggered h \<Longrightarrow> since_last_trigger h = map fst h"
  by (simp add: since_last_trigger_def list_ex_iff takeWhile_eq_all_conv [THEN iffD2])

lemma event_loop_pending:
  "event_loop command verbose s evs = (acts, Continue, s') \<Longrightarrow>
   watch_events s'
   = (if list_ex triggered (round_traces command verbose s evs) then 0 else watch_events s)
     + word_of_nat (drains_since_trigger command verbose s evs)"
proof (induction evs arbitrary: s acts)
  case Nil
  then show ?case
    by (simp add: drains_since_trigger_def since_last_trigger_def)
next
  case (Cons ev evs)
  obtain a1 fl1 s1 where lb: "loop_body command verbose s ev = (a1, fl1, s1)"
    by (cases "loop_body command verbose s ev" rule: prod_cases3)
  have fl1: "fl1 = Continue"
  proof (rule ccontr)
    assume "fl1 \<noteq> Continue"
    with lb Cons.prems show False
      by (cases fl1) auto
  qed
  obtain a2 fl2 s2 where el: "event_loop command verbose s1 evs = (a2, fl2, s2)"
    by (cases "event_loop command verbose s1 evs" rule: prod_cases3)
  from Cons.prems lb fl1 el have fin: "fl2 = Continue" "s2 = s'"
    by simp_all
  let ?T = "round_traces command verbose s1 evs"
  have rt: "round_traces command verbose s (ev # evs) = (ev, a1) # ?T"
    using lb fl1 by simp
  have ih: "watch_events s'
            = (if list_ex triggered ?T then 0 else watch_events s1)
              + word_of_nat (drains_since_trigger command verbose s1 evs)"
    using Cons.IH [of s1 a2] el fin by simp
  have one: "watch_events s1
             = (if triggered (ev, a1) then 0
                else watch_events s + (if positive_drain verbose ev then 1 else 0))"
    using loop_body_round lb fl1 by blast
  show ?case
  proof (cases "list_ex triggered ?T")
    case True
    with ih show ?thesis
      by (simp add: rt drains_since_trigger_def since_last_trigger_Cons
            del: round_traces.simps)
  next
    case False
    with ih one show ?thesis
      by (simp add: rt drains_since_trigger_def since_last_trigger_Cons
            since_last_trigger_none del: round_traces.simps)
  qed
qed

section \<open>The claims\<close>

subsection \<open>C1: when a command invocation ends the loop\<close>

text \<open>
  C1. In a round in which the loop invokes the command (\<^verbatim>\<open>poll\<close> returned 0 while
  \<^verbatim>\<open>watch_events > 0\<close>) and \<^verbatim>\<open>system\<close> reports how the child ended, the command is run
  and the round leaves the loop if and only if the child ended through a normal exit with
  a nonzero exit code. A child killed by a signal, and a normal exit with code zero, let
  the loop continue. When the round leaves the loop, the rounds after it are never
  looked at. When it does not, the loop goes on with the rounds after it, from
  \<^verbatim>\<open>watch_events = 0\<close>, and the run is what these rounds make of it.
\<close>
theorem stop_iff_normal_nonzero_exit:
  assumes "npoll ev = 0" and "0 < sint (watch_events s)"
    and "system_rc ev = wait_status t" and "valid_child_end t"
  shows "System command \<in> set (fst (loop_body command verbose s ev))
       \<and> fst (snd (loop_body command verbose s ev))
           = (if (\<exists>c. t = Exited c \<and> c \<noteq> 0) then Break else Continue)
       \<and> ((\<exists>c. t = Exited c \<and> c \<noteq> 0) \<longrightarrow>
            event_loop command verbose s (ev # evs) = loop_body command verbose s ev)
       \<and> (\<not> (\<exists>c. t = Exited c \<and> c \<noteq> 0) \<longrightarrow>
            event_loop command verbose s (ev # evs)
            = (case event_loop command verbose (s\<lparr>watch_events := 0\<rparr>) evs of
                 (acts', fl, s'') \<Rightarrow> (fst (loop_body command verbose s ev) @ acts', fl, s'')))"
proof -
  have fl: "fst (snd (loop_body command verbose s ev))
           = (if (\<exists>c. t = Exited c \<and> c \<noteq> 0) then Break else Continue)"
  proof (cases t)
    case (Exited c)
    then show ?thesis
      using assms(3)
      by (simp add: timeout_round_body(1) [OF assms(1,2)] WIFEXITED_Exited wait_status_Exited_eq_0)
  next
    case (Killed sg core)
    with assms(4) have "WIFEXITED (wait_status (Killed sg core)) = 0"
      by (simp add: valid_child_end_def WIFEXITED_Killed)
    with Killed show ?thesis
      using assms(3) by (simp add: timeout_round_body(1) [OF assms(1,2)])
  qed
  have go: "event_loop command verbose s (ev # evs)
            = (case event_loop command verbose (s\<lparr>watch_events := 0\<rparr>) evs of
                 (acts', fl, s'') \<Rightarrow> (fst (loop_body command verbose s ev) @ acts', fl, s''))"
    if "\<not> (\<exists>c. t = Exited c \<and> c \<noteq> 0)"
  proof -
    from that fl have "loop_body command verbose s ev
          = (fst (loop_body command verbose s ev), Continue, s\<lparr>watch_events := 0\<rparr>)"
      using timeout_round_state [OF assms(1,2), of command verbose]
      by (metis prod.collapse)
    then show ?thesis
      by (rule event_loop_Continue)
  qed
  show ?thesis
    using fl go timeout_round_body(2) [OF assms(1,2)] event_loop_Break [of command verbose s ev evs]
    by simp
qed

text \<open>
  An invocation followed by a round that delivers SIGTERM. After exit code 1 the loop is
  left at once and the signal round is never polled; after exit code 0 and after death by
  signal 9 the loop polls again and is left by the signal.
\<close>
theorem stop_iff_normal_nonzero_exit_witness:
  "event_loop ''make'' False \<lparr>watch_events = 1, ret = 0\<rparr>
     [timeout_round (wait_status (Exited 1)), signal_round SIGTERM]
     = ([Poll 100, System ''make''], Break, \<lparr>watch_events = 0, ret = 0\<rparr>)
   \<and> event_loop ''make'' False \<lparr>watch_events = 1, ret = 0\<rparr>
     [timeout_round (wait_status (Exited 0)), signal_round SIGTERM]
     = ([Poll 100, System ''make'', Poll 1000], Break, \<lparr>watch_events = 0, ret = 0\<rparr>)
   \<and> event_loop ''make'' False \<lparr>watch_events = 1, ret = 0\<rparr>
     [timeout_round (wait_status (Killed 9 False)), signal_round SIGTERM]
     = ([Poll 100, System ''make'', Poll 1000], Break, \<lparr>watch_events = 0, ret = 0\<rparr>)"
proof -
  let ?s = "\<lparr>watch_events = 1, ret = 0\<rparr>"
  have sg: "event_loop ''make'' False \<lparr>watch_events = 0, ret = 0\<rparr> [signal_round SIGTERM]
            = ([Poll 1000], Break, \<lparr>watch_events = 0, ret = 0\<rparr>)"
    by (simp add: loop_body_def signal_round_def POLLIN_def SIGTERM_def SIGINT_def
          sizeof_signalfd_siginfo_def)
  have body: "fst (loop_body ''make'' False ?s (timeout_round rc)) = [Poll 100, System ''make'']"
    for rc
    by (simp add: loop_body_trace_trigger timeout_round_def)
  have st: "snd (snd (loop_body ''make'' False ?s (timeout_round rc)))
            = \<lparr>watch_events = 0, ret = 0\<rparr>" for rc
    by (simp add: timeout_round_state timeout_round_def)
  have pre: "npoll (timeout_round rc) = 0" "0 < sint (watch_events ?s)"
    "system_rc (timeout_round rc) = rc" for rc
    by (simp_all add: timeout_round_def)
  have v: "valid_child_end (Exited 1)" "valid_child_end (Exited 0)"
    "valid_child_end (Killed 9 False)"
    by (simp_all add: valid_child_end_def)
  note a = stop_iff_normal_nonzero_exit [OF pre(1) pre(2) pre(3) v(1),
              of "''make''" False "[signal_round SIGTERM]"]
  note b = stop_iff_normal_nonzero_exit [OF pre(1) pre(2) pre(3) v(2),
              of "''make''" False "[signal_round SIGTERM]"]
  note c = stop_iff_normal_nonzero_exit [OF pre(1) pre(2) pre(3) v(3),
              of "''make''" False "[signal_round SIGTERM]"]
  from a have "event_loop ''make'' False ?s
         [timeout_round (wait_status (Exited 1)), signal_round SIGTERM]
       = loop_body ''make'' False ?s (timeout_round (wait_status (Exited 1)))"
    by simp
  moreover from a have "fst (snd (loop_body ''make'' False ?s
         (timeout_round (wait_status (Exited 1))))) = Break"
    by simp
  ultimately have 1: "event_loop ''make'' False ?s
         [timeout_round (wait_status (Exited 1)), signal_round SIGTERM]
       = ([Poll 100, System ''make''], Break, \<lparr>watch_events = 0, ret = 0\<rparr>)"
    using body [of "wait_status (Exited 1)"] st [of "wait_status (Exited 1)"]
    by (metis prod.collapse)
  from b have 2: "event_loop ''make'' False ?s
         [timeout_round (wait_status (Exited 0)), signal_round SIGTERM]
       = ([Poll 100, System ''make'', Poll 1000], Break, \<lparr>watch_events = 0, ret = 0\<rparr>)"
    by (simp add: body sg del: event_loop.simps)
  from c have 3: "event_loop ''make'' False ?s
         [timeout_round (wait_status (Killed 9 False)), signal_round SIGTERM]
       = ([Poll 100, System ''make'', Poll 1000], Break, \<lparr>watch_events = 0, ret = 0\<rparr>)"
    by (simp add: body sg del: event_loop.simps)
  from 1 2 3 show ?thesis
    by simp
qed

subsection \<open>C2: a failed watch registration\<close>

text \<open>
  C2. The claim is that a failed watch registration makes \<^verbatim>\<open>watch_for_changes\<close> return a
  failure status without entering the wait loop, the signal descriptor being closed first.
  The code does so when \<^verbatim>\<open>inotify_init\<close> fails (first equation). When
  \<^verbatim>\<open>inotify_add_watch\<close> fails, \<^verbatim>\<open>initialise_watcher\<close> reports the error with \<^verbatim>\<open>perror\<close> but
  still returns the inotify descriptor, so the caller takes the start-up for a success:
  it waits in \<^verbatim>\<open>poll\<close> (second equation), and on SIGINT it returns \<^verbatim>\<open>EXIT_SUCCESS\<close> without
  ever closing descriptor 4, which the statics never recorded (third equation).
\<close>
theorem failed_registration_enters_loop:
  "watch_for_changes ''gone'' ''make'' True False
      ((startup_with_watch 1)\<lparr>inotify_init_ret := - 1\<rparr>) [] initial_statics
     = ([Perror ''Failed to initalise iNotify'', Close 3,
         Stderr ''Unable to initialise watch handler\<newline>''],
        Returned EXIT_FAILURE, initial_statics)
   \<and> watch_for_changes ''gone'' ''make'' True False (startup_with_watch (- 1)) [] initial_statics
     = ([Perror ''Failed to create a watch on target''], Waiting, initial_statics)
   \<and> watch_for_changes ''gone'' ''make'' True False (startup_with_watch (- 1))
        [timeout_round 0, signal_round SIGINT] initial_statics
     = ([Perror ''Failed to create a watch on target'', Poll 1000, Poll 1000, Close 3],
        Returned EXIT_SUCCESS, initial_statics)"
  by (simp add: watch_for_changes_def initialize_signals_def initialise_watcher_def
        startup_with_watch_def loop_body_def timeout_round_def signal_round_def
        shutdown_watcher_def initial_statics_def POLLIN_def SIGINT_def
        sizeof_signalfd_siginfo_def Let_def EXIT_SUCCESS_def)

subsection \<open>C3: what a drain does to the pending counter\<close>

text \<open>
  C3, as stated, fails: a drain that returns a modify count of 2 (modifications of
  \<^verbatim>\<open>a.txt\<close> and of \<^verbatim>\<open>b.txt\<close> in one batch) raises \<^verbatim>\<open>watch_events\<close> from 0 to 1, not to 2.
\<close>
theorem pending_not_increased_by_count_counterexample:
  "map_option snd (watch_handler 64
      (encode_batch [named_event IN_MODIFY ''a.txt'', named_event IN_MODIFY ''b.txt'']) False)
     = Some 2
   \<and> watch_events (snd (snd (loop_body ''make'' False \<lparr>watch_events = 0, ret = 0\<rparr>
        (inotify_round 64
           (encode_batch [named_event IN_MODIFY ''a.txt'', named_event IN_MODIFY ''b.txt''])))))
     = 1"
  by (simp add: two_names_batch loop_body_def inotify_block_def inotify_round_def POLLIN_def)

text \<open>
  C3, amended. In a round in which the inotify descriptor is readable and the loop is
  not left, \<^verbatim>\<open>watch_events\<close> increases by exactly one (32-bit \<^verbatim>\<open>int\<close> arithmetic) when
  the drain returns a count greater than zero, whatever that count is, and is unchanged
  when the drain returns zero. A round that triggers the command resets it to zero. The
  loop starts with \<^verbatim>\<open>watch_events = 0\<close>, and as long as it has not been left,
  \<^verbatim>\<open>watch_events\<close> is (as a 32-bit value) the number of drains with a count greater than
  zero since the last trigger, or since the start when nothing was triggered yet.
\<close>
theorem pending_incremented_once_per_drain:
  "(0 < npoll ev \<and> ino_revents ev AND POLLIN \<noteq> 0
      \<and> fst (snd (loop_body command verbose s ev)) = Continue
      \<and> watch_handler (ino_len ev) (ino_buf ev) verbose = Some (out, n) \<longrightarrow>
    watch_events (snd (snd (loop_body command verbose s ev)))
      = (if 0 < n then watch_events s + 1 else watch_events s))
   \<and> (npoll ev = 0 \<and> 0 < sint (watch_events s) \<longrightarrow>
        watch_events (snd (snd (loop_body command verbose s ev))) = 0)
   \<and> (event_loop command verbose \<lparr>watch_events = 0, ret = EXIT_SUCCESS\<rparr> evs
          = (acts, Continue, s') \<longrightarrow>
        watch_events s'
          = word_of_nat (drains_since_trigger command verbose
                           \<lparr>watch_events = 0, ret = EXIT_SUCCESS\<rparr> evs))"
proof -
  have one: "0 < npoll ev \<and> ino_revents ev AND POLLIN \<noteq> 0
      \<and> fst (snd (loop_body command verbose s ev)) = Continue
      \<and> watch_handler (ino_len ev) (ino_buf ev) verbose = Some (out, n) \<longrightarrow>
    watch_events (snd (snd (loop_body command verbose s ev)))
      = (if 0 < n then watch_events s + 1 else watch_events s)"
    by (auto simp: loop_body_def inotify_block_def Let_def split: if_splits)
  have reset: "npoll ev = 0 \<and> 0 < sint (watch_events s) \<longrightarrow>
        watch_events (snd (snd (loop_body command verbose s ev))) = 0"
    by (auto simp: loop_body_def Let_def)
  have loop: "event_loop command verbose \<lparr>watch_events = 0, ret = EXIT_SUCCESS\<rparr> evs
          = (acts, Continue, s') \<longrightarrow>
        watch_events s'
          = word_of_nat (drains_since_trigger command verbose
                           \<lparr>watch_events = 0, ret = EXIT_SUCCESS\<rparr> evs)"
    using event_loop_pending [of command verbose "\<lparr>watch_events = 0, ret = EXIT_SUCCESS\<rparr>" evs acts s']
    by simp
  from one reset loop show ?thesis
    by blast
qed

text \<open>
  A drain counting two modify events takes \<^verbatim>\<open>watch_events\<close> from 4 to 5. Two such drains,
  a time-out that triggers the command, and one more drain leave \<^verbatim>\<open>watch_events\<close> at 1:
  one drain since the trigger.
\<close>
theorem pending_incremented_once_per_drain_witness:
  "watch_events (snd (snd (loop_body ''make'' False \<lparr>watch_events = 4, ret = 0\<rparr>
        (inotify_round 64
           (encode_batch [named_event IN_MODIFY ''a.txt'', named_event IN_MODIFY ''b.txt''])))))
     = 5
   \<and> event_loop ''make'' False \<lparr>watch_events = 0, ret = EXIT_SUCCESS\<rparr>
        [inotify_round 64
           (encode_batch [named_event IN_MODIFY ''a.txt'', named_event IN_MODIFY ''b.txt'']),
         inotify_round 64
           (encode_batch [named_event IN_MODIFY ''a.txt'', named_event IN_MODIFY ''b.txt'']),
         timeout_round 0,
         inotify_round 64
           (encode_batch [named_event IN_MODIFY ''a.txt'', named_event IN_MODIFY ''b.txt''])]
     = ([Poll 1000, Poll 100, Poll 100, System ''make'', Poll 1000], Continue,
        \<lparr>watch_events = 1, ret = EXIT_SUCCESS\<rparr>)
   \<and> drains_since_trigger ''make'' False \<lparr>watch_events = 0, ret = EXIT_SUCCESS\<rparr>
        [inotify_round 64
           (encode_batch [named_event IN_MODIFY ''a.txt'', named_event IN_MODIFY ''b.txt'']),
         inotify_round 64
           (encode_batch [named_event IN_MODIFY ''a.txt'', named_event IN_MODIFY ''b.txt'']),
         timeout_round 0,
         inotify_round 64
           (encode_batch [named_event IN_MODIFY ''a.txt'', named_event IN_MODIFY ''b.txt''])]
     = 1"
proof -
  let ?B = "encode_batch [named_event IN_MODIFY ''a.txt'', named_event IN_MODIFY ''b.txt'']"
  let ?s0 = "\<lparr>watch_events = 0, ret = EXIT_SUCCESS\<rparr>"
  let ?evs = "[inotify_round 64 ?B, inotify_round 64 ?B, timeout_round 0, inotify_round 64 ?B]"
  have d1: "loop_body ''make'' False \<lparr>watch_events = w, ret = r\<rparr> (inotify_round 64 ?B)
            = ([Poll (if w = 0 then 1000 else 100)], Continue, \<lparr>watch_events = w + 1, ret = r\<rparr>)"
    for w r
    by (simp add: two_names_batch loop_body_def inotify_block_def inotify_round_def POLLIN_def)
  have t1: "loop_body ''make'' False \<lparr>watch_events = 2, ret = r\<rparr> (timeout_round 0)
            = ([Poll 100, System ''make''], Continue, \<lparr>watch_events = 0, ret = r\<rparr>)" for r
    by (simp add: loop_body_def timeout_round_def)
  have el: "event_loop ''make'' False ?s0 ?evs
            = ([Poll 1000, Poll 100, Poll 100, System ''make'', Poll 1000], Continue,
               \<lparr>watch_events = 1, ret = EXIT_SUCCESS\<rparr>)"
    by (simp add: d1 t1)
  have "watch_events \<lparr>watch_events = 1, ret = EXIT_SUCCESS\<rparr>
        = (word_of_nat (drains_since_trigger ''make'' False ?s0 ?evs) :: 32 word)"
    using pending_incremented_once_per_drain
            [where command = "''make''" and verbose = False and evs = ?evs] el
    by blast
  moreover have "drains_since_trigger ''make'' False ?s0 ?evs = 1"
  proof -
    have rt: "round_traces ''make'' False ?s0 ?evs
              = [(inotify_round 64 ?B, [Poll 1000]), (inotify_round 64 ?B, [Poll 100]),
                 (timeout_round 0, [Poll 100, System ''make'']),
                 (inotify_round 64 ?B, [Poll 1000])]"
      by (simp add: d1 t1)
    have pd: "positive_drain False (inotify_round 64 ?B)"
      by (simp add: positive_drain_def inotify_round_def POLLIN_def two_names_batch)
    show ?thesis
      by (simp add: drains_since_trigger_def rt since_last_trigger_def triggered_def
            is_System_def pd del: round_traces.simps)
  qed
  moreover have "watch_events (snd (snd (loop_body ''make'' False \<lparr>watch_events = 4, ret = 0\<rparr>
        (inotify_round 64 ?B)))) = 5"
  proof -
    let ?ev = "inotify_round 64 ?B"
    let ?s = "\<lparr>watch_events = 4, ret = 0\<rparr>"
    have h: "0 < npoll ?ev \<and> ino_revents ?ev AND POLLIN \<noteq> 0
             \<and> fst (snd (loop_body ''make'' False ?s ?ev)) = Continue
             \<and> watch_handler (ino_len ?ev) (ino_buf ?ev) False = Some ([], 2)"
      by (simp add: d1) (simp add: inotify_round_def POLLIN_def two_names_batch)
    have "watch_events (snd (snd (loop_body ''make'' False ?s ?ev)))
          = (if (0 :: int) < 2 then watch_events ?s + 1 else watch_events ?s)"
      using pending_incremented_once_per_drain
              [where ev = ?ev and command = "''make''" and verbose = False
                 and s = ?s and out = "[]" and n = 2, THEN conjunct1, rule_format, OF h] .
    then show ?thesis
      by simp
  qed
  ultimately show ?thesis
    using el by simp
qed

subsection \<open>C4: what verbose mode logs\<close>




subsection \<open>C5: the continuous-mode flag\<close>

text \<open>
  C5. Whatever the target, the command, the verbose flag, the start-up and the rounds,
  \<^verbatim>\<open>watch_for_changes\<close> with \<^verbatim>\<open>continuous\<close> true and with \<^verbatim>\<open>continuous\<close> false has
  the same trace, the same outcome and the same statics afterwards.
\<close>
theorem continuous_flag_never_consulted:
  "watch_for_changes watch_target command True verbose env evs g
   = watch_for_changes watch_target command False verbose env evs g"
  by (simp add: watch_for_changes_def)

text \<open>A run ended by SIGTERM, in both modes.\<close>
theorem continuous_flag_never_consulted_witness:
  "watch_for_changes ''notes.txt'' ''make'' True False (startup_with_watch 1)
     [signal_round SIGTERM] initial_statics
   = watch_for_changes ''notes.txt'' ''make'' False False (startup_with_watch 1)
     [signal_round SIGTERM] initial_statics"
  by (rule continuous_flag_never_consulted)

subsection \<open>C6: the helper \<^verbatim>\<open>execute_command\<close> against the inline logic\<close>

text \<open>
  C6, as stated, fails: the helper returns the same value, \<open>- 1\<close>, for the wait statuses
  0 (exit code 0) and 0x100 (exit code 1), while the loop goes on after the first and is
  left after the second. No reading of the helper's result gives the loop's decision.
\<close>
theorem helper_differs_from_inline_counterexample:
  "execute_command ''make'' False 0 = execute_command ''make'' False 0x100
   \<and> snd (execute_command ''make'' False 0) = - 1
   \<and> fst (snd (loop_body ''make'' False \<lparr>watch_events = 1, ret = 0\<rparr> (timeout_round 0))) = Continue
   \<and> fst (snd (loop_body ''make'' False \<lparr>watch_events = 1, ret = 0\<rparr> (timeout_round 0x100))) = Break"
  by (simp add: execute_command_def loop_body_def timeout_round_def WIFEXITED_def WTERMSIG_def)

text \<open>
  C6, amended. The helper returns \<open>- 1\<close> exactly when \<^verbatim>\<open>WIFEXITED\<close> holds of the status
  (a normal exit, whatever the code) and 0 otherwise. The loop is left exactly when the
  helper returns \<open>- 1\<close> and the status is not zero. The two decisions differ exactly on
  the status 0.
\<close>
theorem helper_agrees_except_zero:
  assumes "npoll ev = 0" and "0 < sint (watch_events s)"
  shows "snd (execute_command command verbose (system_rc ev))
           = (if WIFEXITED (system_rc ev) \<noteq> 0 then - 1 else 0)
       \<and> (fst (snd (loop_body command verbose s ev)) = Break)
           = (snd (execute_command command verbose (system_rc ev)) = - 1 \<and> system_rc ev \<noteq> 0)
       \<and> ((fst (snd (loop_body command verbose s ev)) = Break)
            \<noteq> (snd (execute_command command verbose (system_rc ev)) = - 1))
           = (system_rc ev = 0)"
  using timeout_round_body(1) [OF assms, of command verbose]
  by (auto simp: execute_command_def WIFEXITED_def WTERMSIG_def)

text \<open>On exit code 1 both say stop.\<close>
theorem helper_agrees_except_zero_witness:
  "snd (execute_command ''make'' True 0x100) = - 1
   \<and> fst (snd (loop_body ''make'' True \<lparr>watch_events = 1, ret = 0\<rparr> (timeout_round 0x100))) = Break"
  using helper_agrees_except_zero [of "timeout_round 0x100" "\<lparr>watch_events = 1, ret = 0\<rparr>" "''make''" True]
  by (simp add: timeout_round_def WIFEXITED_def WTERMSIG_def)

subsection \<open>C7: what a drain counts\<close>

text \<open>
  C7. When \<^verbatim>\<open>read\<close> returns a batch of well-formed records (followed in the buffer by
  whatever was there before), \<^verbatim>\<open>watch_handler\<close> returns the number of records of the batch
  whose kinds contain the modify kind, in verbose mode or not. Records of other kinds
  count for nothing.
\<close>
theorem drain_counts_modify_records:
  assumes "list_all wf_record rs"
  shows "map_option snd
           (watch_handler (int (length (encode_batch rs))) (encode_batch rs @ stale) verbose)
         = Some (int (length (filter has_modify rs)))"
  using watch_handler_batch [OF assms, of stale verbose] by simp

text \<open>
  A modify event on \<^verbatim>\<open>a.txt\<close>, the two halves of a rename with cookie 7, and a modify
  event: the count is 2.
\<close>
theorem drain_counts_modify_records_witness:
  "map_option snd (watch_handler 80
      (encode_batch [named_event IN_MODIFY ''a.txt'', plain_event IN_MOVED_FROM 7,
                     plain_event IN_MOVED_TO 7, plain_event IN_MODIFY 0]) False) = Some 2"
proof -
  let ?rs = "[named_event IN_MODIFY ''a.txt'', plain_event IN_MOVED_FROM 7,
              plain_event IN_MOVED_TO 7, plain_event IN_MODIFY 0]"
  have wf: "list_all wf_record ?rs"
    by (simp add: wf_plain_event wf_named_event)
  have len: "int (length (encode_batch ?rs)) = 80"
    by (simp add: encode_batch_def length_encode_named length_encode_plain)
  have no: "IN_MOVED_FROM AND IN_MODIFY = 0" "IN_MOVED_TO AND IN_MODIFY = 0"
    by (simp_all add: IN_MOVED_FROM_def IN_MOVED_TO_def IN_MODIFY_def)
  show ?thesis
    using drain_counts_modify_records [OF wf, of "[]" False]
    by (simp add: len no has_modify_plain has_modify_named IN_MODIFY_neq_0)
qed

subsection \<open>C8: the adaptive timeout and the trigger\<close>

text \<open>
  C8. Every round starts with one \<^verbatim>\<open>poll\<close>, with a timeout of 1000 ms when
  \<^verbatim>\<open>watch_events\<close> is zero and of 100 ms otherwise (so also when it is greater than zero),
  and makes no other. The round runs a command, and then the given one, exactly when
  \<^verbatim>\<open>poll\<close> returned 0 and \<^verbatim>\<open>watch_events\<close> is greater than zero.
\<close>
theorem adaptive_timeout_and_trigger:
  "\<exists>rest. fst (loop_body command verbose s ev)
             = Poll (if watch_events s = 0 then 1000 else 100) # rest
          \<and> (\<forall>t. Poll t \<notin> set rest)
          \<and> (\<forall>c. (System c \<in> set rest) = (c = command \<and> npoll ev = 0 \<and> 0 < sint (watch_events s)))"
proof (cases "npoll ev = 0 \<and> 0 < sint (watch_events s)")
  case True
  then have "watch_events s \<noteq> 0"
    by auto
  with True show ?thesis
    using loop_body_trace_trigger [of ev s command verbose] by auto
next
  case False
  then obtain rest where "fst (loop_body command verbose s ev)
                  = Poll (if watch_events s = 0 then 1000 else 100) # rest" "list_all is_text rest"
    using loop_body_trace_quiet by blast
  with False show ?thesis
    using is_text_not_call [of rest] by auto
qed

text \<open>An idle time-out waits 1000 ms and runs nothing; one with events pending runs the command.\<close>
theorem adaptive_timeout_and_trigger_witness:
  "(\<exists>rest. fst (loop_body ''make'' False \<lparr>watch_events = 0, ret = 0\<rparr> (timeout_round 0))
             = Poll 1000 # rest \<and> (\<forall>c. System c \<notin> set rest))
   \<and> (\<exists>rest. fst (loop_body ''make'' False \<lparr>watch_events = 2, ret = 0\<rparr> (timeout_round 0))
             = Poll 100 # rest \<and> System ''make'' \<in> set rest)"
  using adaptive_timeout_and_trigger [of "''make''" False "\<lparr>watch_events = 0, ret = 0\<rparr>" "timeout_round 0"]
        adaptive_timeout_and_trigger [of "''make''" False "\<lparr>watch_events = 2, ret = 0\<rparr>" "timeout_round 0"]
  by (auto simp: timeout_round_def)

subsection \<open>C9: tearing down twice\<close>

text \<open>
  C9. A second \<^verbatim>\<open>shutdown_watcher\<close> does nothing and leaves the statics as the first
  left them. On statics whose inotify instance is \<open>- 1\<close> (closed, or never set) it does
  nothing either; that is the state \<^verbatim>\<open>initialise_watcher\<close> leaves when the instance could not
  be created or the watch could not be registered.
\<close>
theorem shutdown_watcher_idempotent:
  "shutdown_watcher (snd (shutdown_watcher g)) = ([], snd (shutdown_watcher g))
   \<and> (s_inotify_instance g = - 1 \<longrightarrow> shutdown_watcher g = ([], g))
   \<and> (inotify_init_ret env = - 1 \<or> inotify_add_watch_ret env = - 1 \<longrightarrow>
        shutdown_watcher (snd (snd (initialise_watcher target verbose env initial_statics)))
          = ([], initial_statics))"
  by (simp add: shutdown_watcher_def initialise_watcher_def initial_statics_def Let_def)

text \<open>A session with instance 4 and watch 1 is torn down once; all later calls are empty.\<close>
theorem shutdown_watcher_idempotent_witness:
  "shutdown_watcher \<lparr>s_watch_instance = 1, s_inotify_instance = 4\<rparr>
     = ([Inotify_rm_watch 4 1, Close 4], initial_statics)
   \<and> shutdown_watcher (snd (shutdown_watcher \<lparr>s_watch_instance = 1, s_inotify_instance = 4\<rparr>))
     = ([], initial_statics)
   \<and> shutdown_watcher initial_statics = ([], initial_statics)
   \<and> shutdown_watcher (snd (snd (initialise_watcher ''gone'' False (startup_with_watch (- 1))
         initial_statics))) = ([], initial_statics)"
  using shutdown_watcher_idempotent [of "\<lparr>s_watch_instance = 1, s_inotify_instance = 4\<rparr>"
          "startup_with_watch (- 1)" "''gone''" False]
        shutdown_watcher_idempotent [of initial_statics "startup_with_watch (- 1)" "''gone''" False]
  by (simp add: shutdown_watcher_def initial_statics_def startup_with_watch_def)

subsection \<open>C10: a drain that reads nothing\<close>

text \<open>
  C10. Whenever \<^verbatim>\<open>watch_handler\<close> returns, its count is not negative (and at most 16 when
  \<^verbatim>\<open>read\<close> returned no more than the buffer holds). When \<^verbatim>\<open>read\<close> fails or returns zero
  bytes it decodes nothing and returns zero; a round in which only that happens leaves
  the loop variables as they were and goes on waiting: the loop continues with the rounds
  after it.
\<close>
theorem drain_count_never_negative:
  "(watch_handler len buf verbose = Some (out, n) \<longrightarrow>
      0 \<le> n \<and> (len \<le> int EVENT_BUF_LEN \<longrightarrow> n \<le> 16))
   \<and> (len \<le> 0 \<longrightarrow> watch_handler len buf verbose = Some ([], 0))
   \<and> (0 < npoll ev \<and> sig_revents ev AND POLLIN = 0 \<and> ino_len ev \<le> 0 \<longrightarrow>
        loop_body command verbose s ev
          = ([Poll (if watch_events s = 0 then 1000 else 100)], Continue, s))
   \<and> (0 < npoll ev \<and> sig_revents ev AND POLLIN = 0 \<and> ino_len ev \<le> 0 \<longrightarrow>
        event_loop command verbose s (ev # evs)
          = (case event_loop command verbose s evs of
               (acts', fl, s'') \<Rightarrow>
                 (Poll (if watch_events s = 0 then 1000 else 100) # acts', fl, s'')))"
proof -
  have body: "0 < npoll ev \<and> sig_revents ev AND POLLIN = 0 \<and> ino_len ev \<le> 0 \<longrightarrow>
        loop_body command verbose s ev
          = ([Poll (if watch_events s = 0 then 1000 else 100)], Continue, s)"
    using watch_handler_nothing_read [of "ino_len ev" "ino_buf ev" verbose]
    by (auto simp: loop_body_def inotify_block_def Let_def)
  have loop: "0 < npoll ev \<and> sig_revents ev AND POLLIN = 0 \<and> ino_len ev \<le> 0 \<longrightarrow>
        event_loop command verbose s (ev # evs)
          = (case event_loop command verbose s evs of
               (acts', fl, s'') \<Rightarrow>
                 (Poll (if watch_events s = 0 then 1000 else 100) # acts', fl, s''))"
    using body by (auto simp del: event_loop.simps simp: event_loop_Continue)
  show ?thesis
    using watch_handler_result(1,3) [of len buf verbose out n]
          watch_handler_nothing_read [of len buf verbose] body loop
    by blast
qed

text \<open>
  A failed \<^verbatim>\<open>read\<close> over a buffer of stale bytes, and an empty one; after the failed
  \<^verbatim>\<open>read\<close> the loop polls again and is left only by the signal of the next round.
\<close>
theorem drain_count_never_negative_witness:
  "watch_handler (- 1) (replicate 256 (CHR 0xFF)) True = Some ([], 0)
   \<and> loop_body ''make'' True \<lparr>watch_events = 3, ret = 0\<rparr>
        (inotify_round (- 1) (replicate 256 (CHR 0xFF)))
      = ([Poll 100], Continue, \<lparr>watch_events = 3, ret = 0\<rparr>)
   \<and> loop_body ''make'' True \<lparr>watch_events = 0, ret = 0\<rparr> (inotify_round 0 [])
      = ([Poll 1000], Continue, \<lparr>watch_events = 0, ret = 0\<rparr>)
   \<and> event_loop ''make'' False \<lparr>watch_events = 3, ret = 0\<rparr>
        [inotify_round (- 1) (replicate 256 (CHR 0xFF)), signal_round SIGTERM]
      = ([Poll 100, Poll 100], Break, \<lparr>watch_events = 3, ret = 0\<rparr>)"
proof -
  have sg: "event_loop ''make'' False \<lparr>watch_events = 3, ret = 0\<rparr> [signal_round SIGTERM]
            = ([Poll 100], Break, \<lparr>watch_events = 3, ret = 0\<rparr>)"
    by (simp add: loop_body_def signal_round_def POLLIN_def SIGTERM_def SIGINT_def
          sizeof_signalfd_siginfo_def)
  show ?thesis
    using drain_count_never_negative [of "- 1" "replicate 256 (CHR 0xFF)" True "[]" 0
            "inotify_round (- 1) (replicate 256 (CHR 0xFF))" "''make''"
            "\<lparr>watch_events = 3, ret = 0\<rparr>" "[]"]
          drain_count_never_negative [of 0 "[]" True "[]" 0
            "inotify_round 0 []" "''make''" "\<lparr>watch_events = 0, ret = 0\<rparr>" "[]"]
          drain_count_never_negative [of "- 1" "replicate 256 (CHR 0xFF)" False "[]" 0
            "inotify_round (- 1) (replicate 256 (CHR 0xFF))" "''make''"
            "\<lparr>watch_events = 3, ret = 0\<rparr>" "[signal_round SIGTERM]"]
    by (simp add: inotify_round_def sg del: event_loop.simps)
qed

end
